theory Spec2Isabelle
  imports Complex_Main "HOL-Library.Word"
begin

unbundle bit_operations_syntax

section \<open>The Gemini Live session client (src/services/geminiLive.ts)\<close>

text \<open>
  A shallow embedding of the class \<^verbatim>\<open>GeminiLiveService\<close>: its audio codec (the PCM
  conversion of \<^verbatim>\<open>convertAudioToPCM\<close> and \<^verbatim>\<open>pcmToAudioBuffer\<close>, with the base64
  transport encoding around them), its playback queue, its citation extraction and its
  inbound message dispatch.

  Numbers. A sample of a \<^verbatim>\<open>Float32Array\<close> is modelled by the real number it denotes.
  Every arithmetic step of the two conversions is exact on finite floats: the product
  \<^verbatim>\<open>sample * 32767\<close> is taken in double precision, where a 24-bit significand times a
  15-bit integer needs at most 39 bits; the store into an \<^verbatim>\<open>Int16Array\<close> truncates;
  the quotient \<^verbatim>\<open>int16 / 32768.0\<close> is a division by a power of two, whose result has at
  most 16 significant bits and therefore fits a float32. So the functions below compute on
  the reals what the code computes on finite floats. NaN has no counterpart here.
\<close>

subsection \<open>Errors\<close>

datatype error =
    NotConnected             \<comment> \<open>\<^verbatim>\<open>new Error('Not connected to Gemini Live API')\<close>\<close>
  | NoAudioContext           \<comment> \<open>\<^verbatim>\<open>new Error('Audio context not initialized')\<close>\<close>
  | SyntaxError              \<comment> \<open>\<^verbatim>\<open>JSON.parse\<close> on text that is not JSON\<close>
  | TypeError                \<comment> \<open>property read on null or undefined, iteration of a non-iterable\<close>
  | InvalidCharacterError    \<comment> \<open>\<^verbatim>\<open>atob\<close> on text that is not base64\<close>
  | RangeError               \<comment> \<open>\<^verbatim>\<open>new Int16Array(buffer)\<close> on a buffer of odd byte length;
                                 a call with more arguments than the engine accepts\<close>
  | NotSupportedError        \<comment> \<open>\<^verbatim>\<open>createBuffer\<close> with a length of zero frames\<close>
  | EncodingError            \<comment> \<open>\<^verbatim>\<open>decodeAudioData\<close> on data it cannot decode\<close>

subsection \<open>Typed arrays\<close>

type_synonym uint8 = "8 word"
type_synonym int16 = "16 word"

text \<open>
  Storing a number into an \<^verbatim>\<open>Int16Array\<close> applies ECMAScript's ToInt16: the number is
  truncated towards zero and then reduced modulo \<open>2 ^ 16\<close> into the signed range.
\<close>

definition js_trunc :: "real \<Rightarrow> int" where
  "js_trunc r = (if 0 \<le> r then \<lfloor>r\<rfloor> else \<lceil>r\<rceil>)"

definition ToInt16 :: "real \<Rightarrow> int16" where
  "ToInt16 r = word_of_int (js_trunc r)"

text \<open>
  The bytes of an \<^verbatim>\<open>Int16Array\<close>'s buffer, and the \<^verbatim>\<open>Int16Array\<close> view of a buffer, in
  little-endian order (the byte order of the platforms the client runs on). The view of a
  buffer whose byte length is odd does not exist: the constructor throws a RangeError.
\<close>

definition int16_bytes :: "int16 \<Rightarrow> uint8 list" where
  "int16_bytes w = [ucast w, ucast (drop_bit 8 w)]"

definition buffer_of :: "int16 list \<Rightarrow> uint8 list" where
  "buffer_of ws = concat (map int16_bytes ws)"

fun int16_view :: "uint8 list \<Rightarrow> int16 list" where
  "int16_view (lo # hi # bs) = (push_bit 8 (ucast hi) OR ucast lo) # int16_view bs"
| "int16_view _ = []"

definition Int16Array :: "uint8 list \<Rightarrow> error + int16 list" where
  "Int16Array bs = (if odd (length bs) then Inl RangeError else Inr (int16_view bs))"

subsection \<open>Base64: \<^verbatim>\<open>btoa\<close> and \<^verbatim>\<open>atob\<close>\<close>

text \<open>
  A binary string is a string of characters with codes 0 to 255, here a \<^typ>\<open>string\<close>.
  \<^verbatim>\<open>String.fromCharCode(...bytes)\<close> and the \<^verbatim>\<open>charCodeAt\<close> loop convert between
  bytes and binary strings. The spread passes every byte as one argument of a single call,
  and a JavaScript engine accepts only so many arguments in one call: past that number,
  the parameter \<open>maxArguments\<close>, the call throws a RangeError and no string is built.
\<close>

definition fromCharCode :: "nat \<Rightarrow> uint8 list \<Rightarrow> error + string" where
  "fromCharCode maxArguments bs =
     (if maxArguments < length bs then Inl RangeError
      else Inr (map (\<lambda>b. char_of (unat b)) bs))"

definition charCodes :: "string \<Rightarrow> uint8 list" where
  "charCodes s = map (\<lambda>c. word_of_nat (of_char c)) s"

definition b64_alphabet :: string where
  "b64_alphabet = ''ABCDEFGHIJKLMNOPQRSTUVWXYZabcdefghijklmnopqrstuvwxyz0123456789+/''"

definition b64_char :: "nat \<Rightarrow> char" where
  "b64_char i = b64_alphabet ! (i mod 64)"

fun index_of :: "'a \<Rightarrow> 'a list \<Rightarrow> nat" where
  "index_of x [] = 0"
| "index_of x (y # ys) = (if x = y then 0 else Suc (index_of x ys))"

definition b64_value :: "char \<Rightarrow> nat" where
  "b64_value c = index_of c b64_alphabet"

text \<open>\<^verbatim>\<open>btoa\<close>: three bytes become four characters; a last group of one or two bytes is padded.\<close>

fun btoa_codes :: "nat list \<Rightarrow> string" where
  "btoa_codes (a # b # c # rest) =
     b64_char (a div 4) # b64_char ((a mod 4) * 16 + b div 16) #
     b64_char ((b mod 16) * 4 + c div 64) # b64_char (c mod 64) # btoa_codes rest"
| "btoa_codes [a, b] =
     [b64_char (a div 4), b64_char ((a mod 4) * 16 + b div 16), b64_char ((b mod 16) * 4), CHR ''='']"
| "btoa_codes [a] =
     [b64_char (a div 4), b64_char ((a mod 4) * 16), CHR ''='', CHR ''='']"
| "btoa_codes [] = []"

definition btoa :: "string \<Rightarrow> string" where
  "btoa s = btoa_codes (map of_char s)"

text \<open>
  \<^verbatim>\<open>atob\<close> is the forgiving base64 decoder of the web platform: ASCII whitespace is
  removed; when the length is then a multiple of four, one or two trailing \<^verbatim>\<open>=\<close> are
  removed; a length of 1 modulo 4, or a character outside the alphabet, is a failure
  (an InvalidCharacterError); the characters are decoded six bits each, and the bits left
  over in a last group of two or three characters are discarded.
\<close>

definition ascii_whitespace :: "char \<Rightarrow> bool" where
  "ascii_whitespace c \<longleftrightarrow> c \<in> set [CHR 0x09, CHR 0x0A, CHR 0x0C, CHR 0x0D, CHR 0x20]"

definition strip_padding :: "string \<Rightarrow> string" where
  "strip_padding d =
     (if d \<noteq> [] \<and> last d = CHR ''='' then
        (if butlast d \<noteq> [] \<and> last (butlast d) = CHR ''='' then butlast (butlast d)
         else butlast d)
      else d)"

fun atob_values :: "nat list \<Rightarrow> nat list" where
  "atob_values (p # q # r # t # rest) =
     (p * 4 + q div 16) # ((q mod 16) * 16 + r div 4) # ((r mod 4) * 64 + t) # atob_values rest"
| "atob_values [p, q, r] = [p * 4 + q div 16, (q mod 16) * 16 + r div 4]"
| "atob_values [p, q] = [p * 4 + q div 16]"
| "atob_values _ = []"

definition atob :: "string \<Rightarrow> error + string" where
  "atob data =
     (let d = filter (\<lambda>c. \<not> ascii_whitespace c) data;
          d = (if length d mod 4 = 0 then strip_padding d else d)
      in if length d mod 4 = 1 then Inl InvalidCharacterError
         else if \<not> list_all (\<lambda>c. c \<in> set b64_alphabet) d then Inl InvalidCharacterError
         else Inr (map char_of (atob_values (map b64_value d))))"

subsection \<open>Audio buffers and the PCM conversions\<close>

record audio_buffer =
  sampleRate :: nat
  numberOfChannels :: nat
  channelData :: "real list"   \<comment> \<open>\<^verbatim>\<open>getChannelData(0)\<close>\<close>

text \<open>
  \<^verbatim>\<open>convertAudioToPCM\<close>. Decoding the recorded blob and rendering it through an
  \<^verbatim>\<open>OfflineAudioContext\<close> are the browser's work; they are the parameters
  \<open>decodeAudioData\<close> and \<open>startRendering\<close>. The loop that follows is the code's own:
  each sample is clamped to \<open>[-1, 1]\<close>, multiplied by 32767 and stored into an
  \<^verbatim>\<open>Int16Array\<close>, whose buffer is returned. (A NaN sample, which the reals do not have,
  stays NaN through the clamp and is stored as 0.)
\<close>

definition to_pcm :: "real \<Rightarrow> int16" where
  "to_pcm c = ToInt16 (max (-1) (min 1 c) * 32767)"

definition convertAudioToPCM ::
  "('blob \<Rightarrow> error + audio_buffer) \<Rightarrow> (audio_buffer \<Rightarrow> audio_buffer) \<Rightarrow> 'blob \<Rightarrow> error + uint8 list"
where
  "convertAudioToPCM decodeAudioData startRendering audioData =
     (case decodeAudioData audioData of
        Inl e \<Rightarrow> Inl e
      | Inr audioBuffer \<Rightarrow>
          let resampledBuffer =
                (if sampleRate audioBuffer \<noteq> 16000 \<or> numberOfChannels audioBuffer \<noteq> 1
                 then startRendering audioBuffer else audioBuffer)
          in Inr (buffer_of (map to_pcm (channelData resampledBuffer))))"

text \<open>
  \<^verbatim>\<open>pcmToAudioBuffer\<close>, given whether the service has an audio context: the bytes are
  viewed as an \<^verbatim>\<open>Int16Array\<close>, a mono buffer of that many frames at 24 kHz is created
  (\<^verbatim>\<open>createBuffer\<close> refuses a length of zero frames with a NotSupportedError), and each
  sample is divided by 32768.
\<close>

definition from_pcm :: "int16 \<Rightarrow> real" where
  "from_pcm w = real_of_int (sint w) / 32768"

definition pcmToAudioBuffer :: "bool \<Rightarrow> uint8 list \<Rightarrow> error + audio_buffer" where
  "pcmToAudioBuffer hasContext pcmData =
     (if \<not> hasContext then Inl NoAudioContext
      else case Int16Array pcmData of
        Inl e \<Rightarrow> Inl e
      | Inr int16Array \<Rightarrow>
          if int16Array = [] then Inl NotSupportedError
          else Inr \<lparr>sampleRate = 24000, numberOfChannels = 1,
                    channelData = map from_pcm int16Array\<rparr>)"

text \<open>
  The two directions as the service runs them. \<^verbatim>\<open>sendAudioMessage\<close> computes
  \<^verbatim>\<open>btoa(String.fromCharCode(...new Uint8Array(audioData)))\<close> from the converted audio;
  \<^verbatim>\<open>handleAudioResponse\<close> computes \<^verbatim>\<open>atob(audioData)\<close>, copies the character codes into
  a byte buffer and calls \<^verbatim>\<open>pcmToAudioBuffer\<close>. On a recording whose PCM bytes outnumber the
  arguments the engine accepts, the spread throws and \<^verbatim>\<open>sendAudioMessage\<close> rethrows the
  RangeError without sending.
\<close>

definition encodeOutbound ::
  "nat \<Rightarrow> ('blob \<Rightarrow> error + audio_buffer) \<Rightarrow> (audio_buffer \<Rightarrow> audio_buffer) \<Rightarrow> 'blob
     \<Rightarrow> error + string"
where
  "encodeOutbound maxArguments decodeAudioData startRendering audioBlob =
     (case convertAudioToPCM decodeAudioData startRendering audioBlob of
        Inl e \<Rightarrow> Inl e
      | Inr audioData \<Rightarrow>
          (case fromCharCode maxArguments audioData of
             Inl e \<Rightarrow> Inl e
           | Inr binaryString \<Rightarrow> Inr (btoa binaryString)))"

definition decodeInbound :: "bool \<Rightarrow> string \<Rightarrow> error + audio_buffer" where
  "decodeInbound hasContext audioData =
     (case atob audioData of
        Inl e \<Rightarrow> Inl e
      | Inr binaryData \<Rightarrow> pcmToAudioBuffer hasContext (charCodes binaryData))"

definition round_trip ::
  "nat \<Rightarrow> ('blob \<Rightarrow> error + audio_buffer) \<Rightarrow> (audio_buffer \<Rightarrow> audio_buffer) \<Rightarrow> 'blob
     \<Rightarrow> error + audio_buffer"
where
  "round_trip maxArguments decodeAudioData startRendering audioBlob =
     (case encodeOutbound maxArguments decodeAudioData startRendering audioBlob of
        Inl e \<Rightarrow> Inl e
      | Inr frame \<Rightarrow> decodeInbound True frame)"

subsection \<open>JavaScript values\<close>

text \<open>
  Inbound messages are parsed JSON, handled as \<^verbatim>\<open>any\<close>: the code tests values for
  truthiness, reads properties and falls back with \<^verbatim>\<open>||\<close>. Objects are association
  lists read with \<^const>\<open>map_of\<close>. A property read on \<^verbatim>\<open>null\<close> or \<^verbatim>\<open>undefined\<close> throws
  a TypeError; on any other value that is not an object it yields \<^verbatim>\<open>undefined\<close> (none of
  the property names this program reads is a property of a string, number, boolean or
  array).
\<close>

datatype jsval =
    Undefined | Null | Bool bool | Num rat | Str string
  | Arr "jsval list" | Obj "(string \<times> jsval) list"

fun truthy :: "jsval \<Rightarrow> bool" where
  "truthy Undefined = False"
| "truthy Null = False"
| "truthy (Bool b) = b"
| "truthy (Num n) = (n \<noteq> 0)"
| "truthy (Str s) = (s \<noteq> [])"
| "truthy (Arr xs) = True"
| "truthy (Obj kvs) = True"

definition js_or :: "jsval \<Rightarrow> jsval \<Rightarrow> jsval" where
  "js_or a b = (if truthy a then a else b)"

fun get :: "jsval \<Rightarrow> string \<Rightarrow> error + jsval" where
  "get Undefined k = Inl TypeError"
| "get Null k = Inl TypeError"
| "get (Obj kvs) k = Inr (case map_of kvs k of None \<Rightarrow> Undefined | Some v \<Rightarrow> v)"
| "get (Bool b) k = Inr Undefined"
| "get (Num n) k = Inr Undefined"
| "get (Str s) k = Inr Undefined"
| "get (Arr xs) k = Inr Undefined"

text \<open>
  ECMAScript's ToString, which \<^verbatim>\<open>atob\<close> applies to its argument. The decimal rendering of
  a number is the parameter \<open>Number_toString\<close>. An array is rendered by joining its
  elements with commas, \<^verbatim>\<open>null\<close> and \<^verbatim>\<open>undefined\<close> elements as empty strings.
\<close>

fun ToString :: "(rat \<Rightarrow> string) \<Rightarrow> jsval \<Rightarrow> string"
  and join :: "(rat \<Rightarrow> string) \<Rightarrow> jsval list \<Rightarrow> string" where
  "ToString Number_toString Undefined = ''undefined''"
| "ToString Number_toString Null = ''null''"
| "ToString Number_toString (Bool b) = (if b then ''true'' else ''false'')"
| "ToString Number_toString (Num n) = Number_toString n"
| "ToString Number_toString (Str s) = s"
| "ToString Number_toString (Arr xs) = join Number_toString xs"
| "ToString Number_toString (Obj kvs) = ''[object Object]''"
| "join Number_toString [] = []"
| "join Number_toString [x] =
     (if x = Undefined \<or> x = Null then [] else ToString Number_toString x)"
| "join Number_toString (x # y # ys) =
     (if x = Undefined \<or> x = Null then [] else ToString Number_toString x) @ '','' @
     join Number_toString (y # ys)"

subsection \<open>Citation extraction\<close>

record citation =
  startIndex :: jsval
  endIndex :: jsval
  uri :: jsval
  title :: jsval

text \<open>
  The body of the \<^verbatim>\<open>forEach\<close> callback of \<^verbatim>\<open>extractCitations\<close>: the citations it pushes
  for one attribution entry, or the TypeError of reading a property of a \<^verbatim>\<open>null\<close> entry.
\<close>

definition attribution_citations :: "jsval \<Rightarrow> error + citation list" where
  "attribution_citations attr =
     (case get attr ''segment'' of
        Inl e \<Rightarrow> Inl e
      | Inr segment \<Rightarrow>
          if \<not> truthy segment then Inr []
          else (case get attr ''web'' of
                  Inl e \<Rightarrow> Inl e
                | Inr web \<Rightarrow>
                    if \<not> truthy web then Inr []
                    else (case (get segment ''startIndex'', get segment ''endIndex'',
                                get web ''uri'', get web ''title'') of
                            (Inr si, Inr ei, Inr u, Inr t) \<Rightarrow>
                              Inr [\<lparr>startIndex = js_or si (Num 0), endIndex = js_or ei (Num 0),
                                    uri = js_or u (Str []), title = js_or t (Str ''Web Source'')\<rparr>]
                          | _ \<Rightarrow> Inl TypeError)))"

fun forEach_attribution :: "jsval list \<Rightarrow> error + citation list" where
  "forEach_attribution [] = Inr []"
| "forEach_attribution (attr # rest) =
     (case attribution_citations attr of
        Inl e \<Rightarrow> Inl e
      | Inr cs \<Rightarrow> (case forEach_attribution rest of Inl e \<Rightarrow> Inl e | Inr cs' \<Rightarrow> Inr (cs @ cs')))"

text \<open>
  \<^verbatim>\<open>groundingAttributions.forEach\<close> exists on arrays only: on any other truthy value the
  call throws a TypeError.
\<close>

definition extractCitations :: "jsval \<Rightarrow> error + citation list" where
  "extractCitations groundingMetadata =
     (case get groundingMetadata ''groundingAttributions'' of
        Inl e \<Rightarrow> Inl e
      | Inr attributions \<Rightarrow>
          if \<not> truthy attributions then Inr []
          else (case attributions of Arr attrs \<Rightarrow> forEach_attribution attrs | _ \<Rightarrow> Inl TypeError))"

subsection \<open>The session\<close>

text \<open>
  The fields of the service, and two components that belong to its environment:
  \<open>pendingEnded\<close> counts the source nodes that were started and whose \<^verbatim>\<open>ended\<close> event
  has not been dispatched yet (the Web Audio API dispatches it once per started node, when
  its buffer has played to the end or after \<^verbatim>\<open>stop()\<close>); \<open>events\<close> records, in order,
  what the service does to the outside: the frames it sends, the nodes it starts and stops,
  and the consumer callbacks it invokes. The consumer is taken to have registered every
  callback, as \<^verbatim>\<open>useGeminiLive\<close> does, and a callback does not throw.
\<close>

datatype ready_state = CONNECTING | OPEN | CLOSING | CLOSED

datatype outbound =
    ClientContent string     \<comment> \<open>one user turn with that text, \<^verbatim>\<open>turnComplete: true\<close>\<close>
  | RealtimeInput string     \<comment> \<open>one \<^verbatim>\<open>audio/pcm\<close> media chunk with that base64 data\<close>

datatype event =
    WsSend outbound | WsClose | ContextClose
  | SourceStart audio_buffer | SourceStop
  | OnTextResponse jsval | OnCitationsReceived "citation list" | OnTurnComplete
  | OnAudioPlaybackStart | OnAudioPlaybackComplete

record session =
  ws :: "ready_state option"
  isConnected :: bool
  audioContext :: "nat option"           \<comment> \<open>the context, by its sample rate\<close>
  audioQueue :: "audio_buffer list"
  isPlaying :: bool
  currentSource :: "audio_buffer option" \<comment> \<open>the source node, by its buffer\<close>
  pendingEnded :: nat
  events :: "event list"

definition emit :: "event \<Rightarrow> session \<Rightarrow> session" where
  "emit e s = s\<lparr>events := events s @ [e]\<rparr>"

subsection \<open>The playback queue\<close>

definition playNextAudio :: "session \<Rightarrow> session" where
  "playNextAudio s =
     (if audioQueue s = [] then emit OnAudioPlaybackComplete (s\<lparr>isPlaying := False\<rparr>)
      else if audioContext s = None then s
      else let audioBuffer = hd (audioQueue s)
           in emit (SourceStart audioBuffer)
                ((emit OnAudioPlaybackStart (s\<lparr>isPlaying := True\<rparr>))
                   \<lparr>audioQueue := tl (audioQueue s), currentSource := Some audioBuffer,
                    pendingEnded := pendingEnded s + 1\<rparr>))"

text \<open>
  The \<^verbatim>\<open>ended\<close> event of a started source node: its handler, set in
  \<^verbatim>\<open>playNextAudio\<close>, is \<^verbatim>\<open>() => this.playNextAudio()\<close>. There is no such event when no
  started node is waiting for one.
\<close>

definition source_ended :: "session \<Rightarrow> session option" where
  "source_ended s =
     (if pendingEnded s = 0 then None
      else Some (playNextAudio (s\<lparr>pendingEnded := pendingEnded s - 1\<rparr>)))"

definition stopAudioPlayback :: "session \<Rightarrow> session" where
  "stopAudioPlayback s =
     (let s1 = (if currentSource s \<noteq> None then (emit SourceStop s)\<lparr>currentSource := None\<rparr> else s)
      in emit OnAudioPlaybackComplete (s1\<lparr>audioQueue := [], isPlaying := False\<rparr>))"

definition disconnect :: "session \<Rightarrow> session" where
  "disconnect s =
     (let s1 = (if ws s \<noteq> None then (emit WsClose s)\<lparr>ws := None\<rparr> else s);
          s2 = (if audioContext s1 \<noteq> None then (emit ContextClose s1)\<lparr>audioContext := None\<rparr> else s1)
      in (stopAudioPlayback s2)\<lparr>isConnected := False\<rparr>)"

text \<open>
  \<^verbatim>\<open>handleAudioResponse\<close>. Whatever is thrown inside is caught and logged, and the
  function returns normally; the audio context created at its start stays. Its last three
  statements, which push the buffer and start playback when nothing plays, are \<open>enqueue\<close>.
\<close>

definition enqueue :: "audio_buffer \<Rightarrow> session \<Rightarrow> session" where
  "enqueue audioBuffer s =
     (let s1 = s\<lparr>audioQueue := audioQueue s @ [audioBuffer]\<rparr>
      in if \<not> isPlaying s1 then playNextAudio s1 else s1)"

definition ensure_context :: "session \<Rightarrow> session" where
  "ensure_context s = (if audioContext s = None then s\<lparr>audioContext := Some 24000\<rparr> else s)"

definition handleAudioResponse :: "session \<Rightarrow> string \<Rightarrow> session" where
  "handleAudioResponse s audioData =
     (let s1 = ensure_context s
      in case decodeInbound (audioContext s1 \<noteq> None) audioData of
           Inl e \<Rightarrow> s1
         | Inr audioBuffer \<Rightarrow> enqueue audioBuffer s1)"

subsection \<open>Sending\<close>

definition sendTextMessage :: "session \<Rightarrow> string \<Rightarrow> (error + unit) \<times> session" where
  "sendTextMessage s text =
     (if ws s \<noteq> Some OPEN then (Inl NotConnected, s)
      else (Inr (), emit (WsSend (ClientContent text)) s))"

definition sendAudioMessage ::
  "nat \<Rightarrow> ('blob \<Rightarrow> error + audio_buffer) \<Rightarrow> (audio_buffer \<Rightarrow> audio_buffer) \<Rightarrow> session \<Rightarrow> 'blob
     \<Rightarrow> (error + unit) \<times> session"
where
  "sendAudioMessage maxArguments decodeAudioData startRendering s audioBlob =
     (if ws s \<noteq> Some OPEN then (Inl NotConnected, s)
      else case encodeOutbound maxArguments decodeAudioData startRendering audioBlob of
             Inl e \<Rightarrow> (Inl e, s)
           | Inr base64Audio \<Rightarrow> (Inr (), emit (WsSend (RealtimeInput base64Audio)) s))"

subsection \<open>Inbound dispatch\<close>

text \<open>
  A function that can throw after it has changed the session returns the error, if any,
  together with the session as it is at that point.
\<close>

definition handle_part :: "(rat \<Rightarrow> string) \<Rightarrow> session \<Rightarrow> jsval \<Rightarrow> error option \<times> session" where
  "handle_part Number_toString s part =
     (case get part ''text'' of
        Inl e \<Rightarrow> (Some e, s)
      | Inr text \<Rightarrow>
          let s1 = (if truthy text then emit (OnTextResponse text) s else s)
          in case get part ''inlineData'' of
               Inl e \<Rightarrow> (Some e, s1)
             | Inr inlineData \<Rightarrow>
                 if \<not> truthy inlineData then (None, s1)
                 else (case (get inlineData ''mimeType'', get inlineData ''data'') of
                         (Inr mimeType, Inr data) \<Rightarrow>
                           if mimeType = Str ''audio/pcm''
                           then (None, handleAudioResponse s1 (ToString Number_toString data))
                           else (None, s1)
                       | _ \<Rightarrow> (Some TypeError, s1)))"

fun for_parts :: "(rat \<Rightarrow> string) \<Rightarrow> session \<Rightarrow> jsval list \<Rightarrow> error option \<times> session" where
  "for_parts Number_toString s [] = (None, s)"
| "for_parts Number_toString s (part # rest) =
     (case handle_part Number_toString s part of
        (Some e, s') \<Rightarrow> (Some e, s')
      | (None, s') \<Rightarrow> for_parts Number_toString s' rest)"

text \<open>
  \<^verbatim>\<open>for (const part of parts)\<close> iterates an array over its elements and a string over its
  characters; any other truthy value is not iterable.
\<close>

definition iterate :: "jsval \<Rightarrow> error + jsval list" where
  "iterate v = (case v of Arr xs \<Rightarrow> Inr xs | Str s \<Rightarrow> Inr (map (\<lambda>c. Str [c]) s) | _ \<Rightarrow> Inl TypeError)"

definition model_turn :: "(rat \<Rightarrow> string) \<Rightarrow> session \<Rightarrow> jsval \<Rightarrow> jsval \<Rightarrow> error option \<times> session" where
  "model_turn Number_toString s content modelTurn =
     (case get modelTurn ''parts'' of
        Inl e \<Rightarrow> (Some e, s)
      | Inr parts \<Rightarrow>
          (case iterate (js_or parts (Arr [])) of
             Inl e \<Rightarrow> (Some e, s)
           | Inr ps \<Rightarrow>
               (case for_parts Number_toString s ps of
                  (Some e, s') \<Rightarrow> (Some e, s')
                | (None, s') \<Rightarrow>
                    (case get content ''groundingMetadata'' of
                       Inl e \<Rightarrow> (Some e, s')
                     | Inr groundingMetadata \<Rightarrow>
                         if \<not> truthy groundingMetadata then (None, s')
                         else (case extractCitations groundingMetadata of
                                 Inl e \<Rightarrow> (Some e, s')
                               | Inr citations \<Rightarrow> (None, emit (OnCitationsReceived citations) s'))))))"

definition handleServerContent :: "(rat \<Rightarrow> string) \<Rightarrow> session \<Rightarrow> jsval \<Rightarrow> error option \<times> session" where
  "handleServerContent Number_toString s content =
     (case get content ''modelTurn'' of
        Inl e \<Rightarrow> (Some e, s)
      | Inr modelTurn \<Rightarrow>
          (case (if truthy modelTurn then model_turn Number_toString s content modelTurn else (None, s)) of
             (Some e, s') \<Rightarrow> (Some e, s')
           | (None, s') \<Rightarrow>
               (case get content ''turnComplete'' of
                  Inl e \<Rightarrow> (Some e, s')
                | Inr turnComplete \<Rightarrow>
                    (None, if truthy turnComplete then emit OnTurnComplete s' else s'))))"

text \<open>
  \<^verbatim>\<open>handleMessage\<close>: the whole body is inside \<^verbatim>\<open>try\<close>, and the \<^verbatim>\<open>catch\<close> only logs, so
  the handler returns a session in every case. \<^verbatim>\<open>JSON.parse\<close> is the parameter
  \<open>JSON_parse\<close>, \<open>None\<close> where it throws a SyntaxError. The \<^verbatim>\<open>setupComplete\<close> branch only
  logs.
\<close>

definition handleMessage ::
  "('data \<Rightarrow> jsval option) \<Rightarrow> (rat \<Rightarrow> string) \<Rightarrow> session \<Rightarrow> 'data \<Rightarrow> session"
where
  "handleMessage JSON_parse Number_toString s data =
     (case JSON_parse data of
        None \<Rightarrow> s
      | Some message \<Rightarrow>
          (case get message ''serverContent'' of
             Inl e \<Rightarrow> s
           | Inr serverContent \<Rightarrow>
               if truthy serverContent
               then snd (handleServerContent Number_toString s serverContent)
               else s))"

subsection \<open>Messages of the documented shape\<close>

text \<open>
  The wire format of an inbound \<^verbatim>\<open>serverContent\<close> message, as typed data, and its
  JSON value: a field that is absent in the typed data is absent in the object.
\<close>

datatype segment = Segment "rat option" "rat option"
datatype web_source = Web "string option" "string option"
datatype attribution = Attribution "segment option" "web_source option"
datatype grounding_metadata = GroundingMetadata "attribution list option"
datatype part = TextPart string | InlineDataPart string string

fun field :: "string \<Rightarrow> jsval option \<Rightarrow> (string \<times> jsval) list" where
  "field k None = []"
| "field k (Some v) = [(k, v)]"

fun js_segment :: "segment \<Rightarrow> jsval" where
  "js_segment (Segment si ei) =
     Obj (field ''startIndex'' (map_option Num si) @ field ''endIndex'' (map_option Num ei))"

fun js_web :: "web_source \<Rightarrow> jsval" where
  "js_web (Web u t) = Obj (field ''uri'' (map_option Str u) @ field ''title'' (map_option Str t))"

fun js_attribution :: "attribution \<Rightarrow> jsval" where
  "js_attribution (Attribution sg w) =
     Obj (field ''segment'' (map_option js_segment sg) @ field ''web'' (map_option js_web w))"

fun js_grounding :: "grounding_metadata \<Rightarrow> jsval" where
  "js_grounding (GroundingMetadata attrs) =
     Obj (field ''groundingAttributions'' (map_option (\<lambda>as. Arr (map js_attribution as)) attrs))"

fun js_part :: "part \<Rightarrow> jsval" where
  "js_part (TextPart t) = Obj [(''text'', Str t)]"
| "js_part (InlineDataPart m d) =
     Obj [(''inlineData'', Obj [(''mimeType'', Str m), (''data'', Str d)])]"

definition js_server_content :: "part list \<Rightarrow> grounding_metadata option \<Rightarrow> bool \<Rightarrow> jsval" where
  "js_server_content parts gm turnComplete =
     Obj ([(''modelTurn'', Obj [(''parts'', Arr (map js_part parts))])] @
          field ''groundingMetadata'' (map_option js_grounding gm) @
          (if turnComplete then [(''turnComplete'', Bool True)] else []))"

definition js_message :: "jsval \<Rightarrow> jsval" where
  "js_message serverContent = Obj [(''serverContent'', serverContent)]"

text \<open>
  The citations of typed grounding metadata in the words of the specification: one per
  entry that has both a segment and a web source, in input order, each field taken from
  the entry when it is there (\<^verbatim>\<open>??\<close>) and defaulted when it is absent.
\<close>

fun spec_citation :: "segment \<Rightarrow> web_source \<Rightarrow> citation" where
  "spec_citation (Segment si ei) (Web u t) =
     \<lparr>startIndex = Num (case si of None \<Rightarrow> 0 | Some n \<Rightarrow> n),
      endIndex = Num (case ei of None \<Rightarrow> 0 | Some n \<Rightarrow> n),
      uri = Str (case u of None \<Rightarrow> [] | Some x \<Rightarrow> x),
      title = Str (case t of None \<Rightarrow> ''Web Source'' | Some x \<Rightarrow> x)\<rparr>"

fun spec_citations :: "attribution list \<Rightarrow> citation list" where
  "spec_citations [] = []"
| "spec_citations (Attribution (Some sg) (Some w) # rest) = spec_citation sg w # spec_citations rest"
| "spec_citations (_ # rest) = spec_citations rest"

fun extractCitations_spec :: "grounding_metadata \<Rightarrow> citation list" where
  "extractCitations_spec (GroundingMetadata None) = []"
| "extractCitations_spec (GroundingMetadata (Some attrs)) = spec_citations attrs"

text \<open>The same with the title defaulted also when it is present and empty.\<close>

fun lenient_citation :: "segment \<Rightarrow> web_source \<Rightarrow> citation" where
  "lenient_citation (Segment si ei) (Web u t) =
     \<lparr>startIndex = Num (case si of None \<Rightarrow> 0 | Some n \<Rightarrow> n),
      endIndex = Num (case ei of None \<Rightarrow> 0 | Some n \<Rightarrow> n),
      uri = Str (case u of None \<Rightarrow> [] | Some x \<Rightarrow> x),
      title = Str (case t of None \<Rightarrow> ''Web Source''
                   | Some x \<Rightarrow> if x = [] then ''Web Source'' else x)\<rparr>"

fun lenient_citations :: "attribution list \<Rightarrow> citation list" where
  "lenient_citations [] = []"
| "lenient_citations (Attribution (Some sg) (Some w) # rest) =
     lenient_citation sg w # lenient_citations rest"
| "lenient_citations (_ # rest) = lenient_citations rest"

fun extractCitations_lenient :: "grounding_metadata \<Rightarrow> citation list" where
  "extractCitations_lenient (GroundingMetadata None) = []"
| "extractCitations_lenient (GroundingMetadata (Some attrs)) = lenient_citations attrs"

subsection \<open>Observations\<close>

text \<open>
  The buffers handed to the playback queue so far, in order: those a source node was
  started with, followed by those still waiting in the queue.
\<close>

fun started :: "event list \<Rightarrow> audio_buffer list" where
  "started [] = []"
| "started (SourceStart b # evs) = b # started evs"
| "started (_ # evs) = started evs"

definition playback_order :: "session \<Rightarrow> audio_buffer list" where
  "playback_order s = started (events s) @ audioQueue s"

fun is_citations :: "event \<Rightarrow> bool" where
  "is_citations (OnCitationsReceived cs) = True"
| "is_citations _ = False"

fun playback_event :: "event \<Rightarrow> bool" where
  "playback_event OnAudioPlaybackStart = True"
| "playback_event (SourceStart b) = True"
| "playback_event (OnTextResponse t) = True"
| "playback_event _ = False"

fun pcm_payloads :: "part list \<Rightarrow> string list" where
  "pcm_payloads [] = []"
| "pcm_payloads (TextPart t # ps) = pcm_payloads ps"
| "pcm_payloads (InlineDataPart m d # ps) =
     (if m = ''audio/pcm'' then [d] else []) @ pcm_payloads ps"

fun decoded :: "string list \<Rightarrow> audio_buffer list" where
  "decoded [] = []"
| "decoded (d # ds) =
     (case decodeInbound True d of Inl e \<Rightarrow> [] | Inr b \<Rightarrow> [b]) @ decoded ds"

text \<open>The encoding of \<^verbatim>\<open>btoa\<close> before padding, which is what \<^verbatim>\<open>atob\<close> decodes.\<close>

fun b64_unpadded :: "nat list \<Rightarrow> string" where
  "b64_unpadded (a # b # c # rest) =
     b64_char (a div 4) # b64_char ((a mod 4) * 16 + b div 16) #
     b64_char ((b mod 16) * 4 + c div 64) # b64_char (c mod 64) # b64_unpadded rest"
| "b64_unpadded [a, b] =
     [b64_char (a div 4), b64_char ((a mod 4) * 16 + b div 16), b64_char ((b mod 16) * 4)]"
| "b64_unpadded [a] = [b64_char (a div 4), b64_char ((a mod 4) * 16)]"
| "b64_unpadded [] = []"

text \<open>A service that has just been constructed, and the same with an open transport.\<close>

definition fresh :: session where
  "fresh = \<lparr>ws = None, isConnected = False, audioContext = None, audioQueue = [],
            isPlaying = False, currentSource = None, pendingEnded = 0, events = []\<rparr>"

definition connected :: session where
  "connected = fresh\<lparr>ws := Some OPEN, isConnected := True\<rparr>"

text \<open>Whether a parsed payload is an object that has a given top-level key.\<close>

fun has_key :: "jsval \<Rightarrow> string \<Rightarrow> bool" where
  "has_key (Obj kvs) k = (k \<in> set (map fst kvs))"
| "has_key v k = False"

text \<open>
  The examples below contain no number where a string is expected; they are stated with
  a rendering of numbers that is never consulted.
\<close>

definition unused_rendering :: "rat \<Rightarrow> string" where
  "unused_rendering n = []"

text \<open>The grounding metadata of the specification's example.\<close>

definition example_metadata :: grounding_metadata where
  "example_metadata =
     GroundingMetadata (Some
       [Attribution (Some (Segment (Some 5) (Some 10))) (Some (Web (Some ''https://x'') (Some ''X''))),
        Attribution (Some (Segment (Some 0) (Some 0))) (Some (Web None None))])"

section \<open>Properties of the audio codec\<close>

lemma js_trunc_bounds:
  "\<bar>real_of_int (js_trunc r)\<bar> \<le> \<bar>r\<bar>" "\<bar>r - real_of_int (js_trunc r)\<bar> < 1"
  unfolding js_trunc_def by (auto; linarith)+

lemma int16_view_bytes: "int16_view (int16_bytes w @ bs) = w # int16_view bs"
proof -
  have "push_bit 8 (ucast (ucast (drop_bit 8 w) :: uint8)) OR ucast (ucast w :: uint8) = w"
    by (rule bit_word_eqI) (auto simp: bit_simps)
  then show ?thesis by (simp add: int16_bytes_def)
qed

lemma int16_view_buffer_of: "int16_view (buffer_of vs) = vs"
  by (induction vs) (simp_all add: buffer_of_def int16_view_bytes)

lemma length_buffer_of: "length (buffer_of vs) = 2 * length vs"
  by (induction vs) (simp_all add: buffer_of_def int16_bytes_def)

lemma Int16Array_buffer_of: "Int16Array (buffer_of vs) = Inr vs"
  by (simp add: Int16Array_def length_buffer_of int16_view_buffer_of)

lemma charCodes_fromCharCode:
  "fromCharCode maxArguments bs = Inr binaryString \<Longrightarrow> charCodes binaryString = bs"
proof -
  have "word_of_nat (of_char (char_of (unat b))) = b" for b :: uint8
  proof -
    have "unat b < 2 ^ LENGTH(8)" by (rule unsigned_less)
    then have "unat b < 256" by simp
    then show ?thesis by simp
  qed
  then have "charCodes (map (\<lambda>b. char_of (unat b)) bs) = bs"
    by (simp add: charCodes_def comp_def map_idI)
  then show "fromCharCode maxArguments bs = Inr binaryString \<Longrightarrow> charCodes binaryString = bs"
    by (auto simp: fromCharCode_def split: if_splits)
qed

lemma fromCharCode_within:
  "length bs \<le> maxArguments \<Longrightarrow> \<exists>binaryString. fromCharCode maxArguments bs = Inr binaryString"
  by (simp add: fromCharCode_def)

lemma fromCharCode_beyond:
  "maxArguments < length bs \<Longrightarrow> fromCharCode maxArguments bs = Inl RangeError"
  by (simp add: fromCharCode_def)

lemma distinct_b64: "distinct b64_alphabet"
  by (simp add: b64_alphabet_def)

lemma length_b64: "length b64_alphabet = 64"
  by (simp add: b64_alphabet_def)

lemma index_of_nth: "distinct xs \<Longrightarrow> i < length xs \<Longrightarrow> index_of (xs ! i) xs = i"
proof (induction xs arbitrary: i)
  case Nil
  then show ?case by simp
next
  case (Cons x xs)
  show ?case
  proof (cases i)
    case 0
    then show ?thesis by simp
  next
    case (Suc j)
    with Cons.prems have "xs ! j \<in> set xs" "x \<notin> set xs" by simp_all
    then have "xs ! j \<noteq> x" by auto
    with Suc Cons show ?thesis by simp
  qed
qed

lemma b64_value_char: "i < 64 \<Longrightarrow> b64_value (b64_char i) = i"
  by (simp add: b64_value_def b64_char_def index_of_nth distinct_b64 length_b64)

lemma b64_char_mem: "b64_char i \<in> set b64_alphabet"
  by (simp add: b64_char_def length_b64)

lemma pad_not_b64: "CHR ''='' \<notin> set b64_alphabet"
  by (simp add: b64_alphabet_def)

lemma b64_char_not_pad: "b64_char i \<noteq> CHR ''=''"
  using b64_char_mem [of i] pad_not_b64 by metis

lemma b64_not_whitespace: "c \<in> set b64_alphabet \<Longrightarrow> \<not> ascii_whitespace c"
  by (auto simp: b64_alphabet_def ascii_whitespace_def)

lemma pad_not_whitespace: "\<not> ascii_whitespace CHR ''=''"
  by (simp add: ascii_whitespace_def)

lemma length_btoa_codes: "length (btoa_codes xs) mod 4 = 0"
  by (induction xs rule: btoa_codes.induct) simp_all

lemma btoa_codes_no_whitespace: "filter (\<lambda>c. \<not> ascii_whitespace c) (btoa_codes xs) = btoa_codes xs"
  by (induction xs rule: btoa_codes.induct)
     (simp_all add: b64_not_whitespace b64_char_mem pad_not_whitespace)

lemma btoa_codes_Nil: "btoa_codes xs = [] \<longleftrightarrow> xs = []"
  by (induction xs rule: btoa_codes.induct) simp_all

lemma strip_padding_Cons:
  "ys \<noteq> [] \<Longrightarrow> x \<noteq> CHR ''='' \<Longrightarrow> strip_padding (x # ys) = x # strip_padding ys"
  by (auto simp: strip_padding_def)

lemma strip_padding_btoa_codes: "strip_padding (btoa_codes xs) = b64_unpadded xs"
proof (induction xs rule: btoa_codes.induct)
  case (1 a b c rest)
  show ?case
  proof (cases "rest = []")
    case True
    then show ?thesis by (simp add: strip_padding_def b64_char_not_pad)
  next
    case False
    then have "btoa_codes rest \<noteq> []" by (simp add: btoa_codes_Nil)
    with 1 show ?thesis by (simp add: strip_padding_Cons b64_char_not_pad)
  qed
qed (simp_all add: strip_padding_def b64_char_not_pad)

lemma length_b64_unpadded: "length (b64_unpadded xs) mod 4 \<noteq> Suc 0"
  by (induction xs rule: b64_unpadded.induct) simp_all

lemma b64_unpadded_alphabet: "list_all (\<lambda>c. c \<in> set b64_alphabet) (b64_unpadded xs)"
  by (induction xs rule: b64_unpadded.induct) (simp_all add: b64_char_mem)

lemma hi_nibble: "b < 256 \<Longrightarrow> b div 16 < (16::nat)"
  using less_mult_imp_div_less [of b 16 16] by simp

lemma hi_pair: "c < 256 \<Longrightarrow> c div 64 < (4::nat)"
  using less_mult_imp_div_less [of c 4 64] by simp

lemma hi_six: "a < 256 \<Longrightarrow> a div 4 < (64::nat)"
  using less_mult_imp_div_less [of a 64 4] by simp

lemma sextet_sum: "p < 4 \<Longrightarrow> q < 16 \<Longrightarrow> p * 16 + q < (64::nat)"
  by linarith

lemma sextet_sum': "p < 16 \<Longrightarrow> q < 4 \<Longrightarrow> p * 4 + q < (64::nat)"
  by linarith

lemma sextet_bounds:
  fixes a b c :: nat
  shows "a < 256 \<Longrightarrow> a div 4 < 64" "b < 256 \<Longrightarrow> (a mod 4) * 16 + b div 16 < 64"
    "c < 256 \<Longrightarrow> (b mod 16) * 4 + c div 64 < 64"
    "c mod 64 < 64" "(b mod 16) * 4 < 64" "(a mod 4) * 16 < 64"
  using sextet_sum [of "a mod 4" "b div 16"] sextet_sum' [of "b mod 16" "c div 64"]
    sextet_sum [of "a mod 4" 0] sextet_sum' [of "b mod 16" 0]
  by (simp_all add: hi_nibble hi_pair hi_six)

lemma octets:
  fixes a b c :: nat
  shows "b < 256 \<Longrightarrow> (a div 4) * 4 + ((a mod 4) * 16 + b div 16) div 16 = a"
    "b < 256 \<Longrightarrow> c < 256 \<Longrightarrow>
      (((a mod 4) * 16 + b div 16) mod 16) * 16 + ((b mod 16) * 4 + c div 64) div 4 = b"
    "c < 256 \<Longrightarrow> (((b mod 16) * 4 + c div 64) mod 4) * 64 + c mod 64 = c"
    "b < 256 \<Longrightarrow> (((a mod 4) * 16 + b div 16) mod 16) * 16 + ((b mod 16) * 4) div 4 = b"
    "(a div 4) * 4 + ((a mod 4) * 16) div 16 = a"
  by (simp_all add: hi_nibble hi_pair)

lemma atob_values_unpadded:
  "list_all (\<lambda>x. x < 256) xs \<Longrightarrow> atob_values (map b64_value (b64_unpadded xs)) = xs"
proof (induction xs rule: b64_unpadded.induct)
  case (1 a b c rest)
  then have lt: "a < 256" "b < 256" "c < 256" and IH: "atob_values (map b64_value (b64_unpadded rest)) = rest"
    by simp_all
  have v: "b64_value (b64_char (a div 4)) = a div 4"
    "b64_value (b64_char ((a mod 4) * 16 + b div 16)) = (a mod 4) * 16 + b div 16"
    "b64_value (b64_char ((b mod 16) * 4 + c div 64)) = (b mod 16) * 4 + c div 64"
    "b64_value (b64_char (c mod 64)) = c mod 64"
    using lt by (simp_all only: b64_value_char sextet_bounds)
  show ?case
    by (simp only: b64_unpadded.simps list.map atob_values.simps v IH octets(1) [OF lt(2)]
        octets(2) [OF lt(2) lt(3)] octets(3) [OF lt(3)])
next
  case (2 a b)
  then have lt: "a < 256" "b < 256" by simp_all
  have v: "b64_value (b64_char (a div 4)) = a div 4"
    "b64_value (b64_char ((a mod 4) * 16 + b div 16)) = (a mod 4) * 16 + b div 16"
    "b64_value (b64_char ((b mod 16) * 4)) = (b mod 16) * 4"
    using lt by (simp_all only: b64_value_char sextet_bounds)
  show ?case
    by (simp only: b64_unpadded.simps list.map atob_values.simps v octets(1) [OF lt(2)] octets(4) [OF lt(2)])
next
  case (3 a)
  then have lt: "a < 256" by simp
  have v: "b64_value (b64_char (a div 4)) = a div 4"
    "b64_value (b64_char ((a mod 4) * 16)) = (a mod 4) * 16"
    using lt by (simp_all only: b64_value_char sextet_bounds)
  show ?case
    by (simp only: b64_unpadded.simps list.map atob_values.simps v octets(5))
next
  case 4
  show ?case by simp
qed

lemma atob_btoa: "atob (btoa s) = Inr s"
proof -
  let ?xs = "map of_char s :: nat list"
  have bytes: "list_all (\<lambda>x. x < 256) ?xs"
    by (simp add: list_all_iff)
  have "map char_of (atob_values (map b64_value (b64_unpadded ?xs))) = s"
    by (simp add: atob_values_unpadded [OF bytes] comp_def)
  then show ?thesis
    by (simp add: atob_def btoa_def btoa_codes_no_whitespace length_btoa_codes
        strip_padding_btoa_codes length_b64_unpadded b64_unpadded_alphabet)
qed

lemma sint_to_pcm: "sint (to_pcm c) = js_trunc (max (-1) (min 1 c) * 32767)"
proof -
  let ?y = "max (-1) (min 1 c) * 32767"
  have "\<bar>?y\<bar> \<le> 32767" by (auto simp: max_def min_def)
  with js_trunc_bounds(1) [of ?y] have "\<bar>real_of_int (js_trunc ?y)\<bar> \<le> 32767" by linarith
  then have "- 32768 \<le> js_trunc ?y" "js_trunc ?y < 32768" by linarith+
  then have "signed_take_bit 15 (js_trunc ?y) = js_trunc ?y"
    by (intro signed_take_bit_int_eq_self) simp_all
  then show ?thesis by (simp add: to_pcm_def ToInt16_def sint_sbintrunc')
qed

lemma to_pcm_range: "- 32767 \<le> sint (to_pcm c) \<and> sint (to_pcm c) \<le> 32767"
proof -
  let ?y = "max (-1) (min 1 c) * 32767"
  have "\<bar>?y\<bar> \<le> 32767" by (auto simp: max_def min_def)
  with js_trunc_bounds(1) [of ?y] have "\<bar>real_of_int (js_trunc ?y)\<bar> \<le> 32767" by linarith
  then show ?thesis unfolding sint_to_pcm by linarith
qed

lemma to_pcm_not_min: "to_pcm c \<noteq> - 32768"
proof
  assume "to_pcm c = - 32768"
  then have "sint (to_pcm c) = sint (- 32768 :: int16)" by simp
  then have "sint (to_pcm c) = - 32768" by simp
  with to_pcm_range [of c] show False by simp
qed

lemma from_pcm_range: "- 32767 / 32768 \<le> from_pcm (to_pcm c) \<and> from_pcm (to_pcm c) \<le> 32767 / 32768"
proof -
  from to_pcm_range [of c]
  have "- 32767 \<le> real_of_int (sint (to_pcm c))" "real_of_int (sint (to_pcm c)) \<le> 32767"
    by linarith+
  then show ?thesis unfolding from_pcm_def by linarith
qed

lemma roundtrip_sample:
  assumes "- 1 \<le> x" "x \<le> 1"
  shows "\<bar>from_pcm (to_pcm x) - x\<bar> < 2 / 32768"
proof -
  have c: "max (-1) (min 1 x) = x" using assms by simp
  show ?thesis
    using js_trunc_bounds(2) [of "x * 32767"] assms unfolding from_pcm_def sint_to_pcm c by linarith
qed

lemma to_pcm_quarter: "sint (to_pcm (1/4)) = 8191"
  unfolding sint_to_pcm by (simp add: js_trunc_def)

lemma to_pcm_near_one: "sint (to_pcm (65535/65536)) = 32766"
  unfolding sint_to_pcm by (simp add: js_trunc_def)

lemma decodeInbound_encoded:
  assumes "fromCharCode maxArguments (buffer_of vs) = Inr binaryString"
  shows "decodeInbound True (btoa binaryString) =
         (if vs = [] then Inl NotSupportedError
          else Inr \<lparr>sampleRate = 24000, numberOfChannels = 1, channelData = map from_pcm vs\<rparr>)"
  by (simp add: decodeInbound_def atob_btoa charCodes_fromCharCode [OF assms] pcmToAudioBuffer_def
      Int16Array_buffer_of)

lemma round_trip_mono16k:
  assumes "decodeAudioData audioBlob = Inr ab" "sampleRate ab = 16000" "numberOfChannels ab = 1"
    and "2 * length (channelData ab) \<le> maxArguments"
  shows "round_trip maxArguments decodeAudioData startRendering audioBlob =
         (if channelData ab = [] then Inl NotSupportedError
          else Inr \<lparr>sampleRate = 24000, numberOfChannels = 1,
                    channelData = map (\<lambda>x. from_pcm (to_pcm x)) (channelData ab)\<rparr>)"
proof -
  let ?vs = "map to_pcm (channelData ab)"
  have c: "convertAudioToPCM decodeAudioData startRendering audioBlob = Inr (buffer_of ?vs)"
    using assms(1-3) by (simp add: convertAudioToPCM_def)
  have "length (buffer_of ?vs) \<le> maxArguments"
    using assms(4) by (simp add: length_buffer_of)
  from fromCharCode_within [OF this] obtain binaryString
    where f: "fromCharCode maxArguments (buffer_of ?vs) = Inr binaryString" ..
  show ?thesis
    by (simp add: round_trip_def encodeOutbound_def c f decodeInbound_encoded [OF f] comp_def)
qed

lemma round_trip_beyond:
  assumes "decodeAudioData audioBlob = Inr ab" "sampleRate ab = 16000" "numberOfChannels ab = 1"
    and "maxArguments < 2 * length (channelData ab)"
  shows "round_trip maxArguments decodeAudioData startRendering audioBlob = Inl RangeError"
    and "ws s = Some OPEN \<Longrightarrow>
         sendAudioMessage maxArguments decodeAudioData startRendering s audioBlob = (Inl RangeError, s)"
proof -
  let ?vs = "map to_pcm (channelData ab)"
  have c: "convertAudioToPCM decodeAudioData startRendering audioBlob = Inr (buffer_of ?vs)"
    using assms(1-3) by (simp add: convertAudioToPCM_def)
  have "maxArguments < length (buffer_of ?vs)"
    using assms(4) by (simp add: length_buffer_of)
  then have f: "fromCharCode maxArguments (buffer_of ?vs) = Inl RangeError"
    by (rule fromCharCode_beyond)
  show "round_trip maxArguments decodeAudioData startRendering audioBlob = Inl RangeError"
    by (simp add: round_trip_def encodeOutbound_def c f)
  show "sendAudioMessage maxArguments decodeAudioData startRendering s audioBlob = (Inl RangeError, s)"
    if "ws s = Some OPEN"
    using that by (simp add: sendAudioMessage_def encodeOutbound_def c f)
qed

lemma convertAudioToPCM_Inr:
  "convertAudioToPCM decodeAudioData startRendering audioBlob = Inr pcm \<Longrightarrow>
   \<exists>xs. pcm = buffer_of (map to_pcm xs)"
  by (auto simp: convertAudioToPCM_def Let_def split: sum.splits)

lemma round_trip_Inr:
  assumes "round_trip maxArguments decodeAudioData startRendering audioBlob = Inr out"
  shows "\<exists>xs. channelData out = map (\<lambda>x. from_pcm (to_pcm x)) xs"
proof -
  from assms obtain pcm binaryString
    where pcm: "convertAudioToPCM decodeAudioData startRendering audioBlob = Inr pcm"
      and f: "fromCharCode maxArguments pcm = Inr binaryString"
      and out: "decodeInbound True (btoa binaryString) = Inr out"
    by (auto simp: round_trip_def encodeOutbound_def split: sum.splits)
  from convertAudioToPCM_Inr [OF pcm] obtain xs where xs: "pcm = buffer_of (map to_pcm xs)" ..
  from f have f': "fromCharCode maxArguments (buffer_of (map to_pcm xs)) = Inr binaryString"
    by (simp add: xs)
  from out decodeInbound_encoded [OF f']
  have "channelData out = map from_pcm (map to_pcm xs)"
    by (auto split: if_splits)
  then show ?thesis by (auto simp: comp_def)
qed

lemma atob_QQ: "atob ''QQ=='' = Inr ''A''"
  by code_simp

lemma decode_AAA: "decodeInbound True ''AAA='' =
      Inr \<lparr>sampleRate = 24000, numberOfChannels = 1, channelData = [0]\<rparr>"
  by (simp add: decodeInbound_def atob_def ascii_whitespace_def strip_padding_def b64_alphabet_def
      b64_value_def charCodes_def pcmToAudioBuffer_def Int16Array_def from_pcm_def)

lemma decode_AQA: "decodeInbound True ''AQA='' =
      Inr \<lparr>sampleRate = 24000, numberOfChannels = 1, channelData = [1 / 32768]\<rparr>"
  by (simp add: decodeInbound_def atob_def ascii_whitespace_def strip_padding_def b64_alphabet_def
      b64_value_def charCodes_def pcmToAudioBuffer_def Int16Array_def from_pcm_def)

lemma decode_QQ: "decodeInbound True ''QQ=='' = Inl RangeError"
  by (simp add: decodeInbound_def atob_def ascii_whitespace_def strip_padding_def b64_alphabet_def
      b64_value_def charCodes_def pcmToAudioBuffer_def Int16Array_def)

text \<open>
  Claim C7, as it holds on the code. The store into the \<^verbatim>\<open>Int16Array\<close> truncates and does
  not round, so the quantization error of the outbound conversion is bounded by one int16
  step, not by half a step: for every sample value \<open>v\<close>, the int16 code divided by 32767
  differs from the clamped value by less than \<open>1 / 32767\<close>.
\<close>

theorem quantization_error:
  "\<bar>real_of_int (sint (to_pcm v)) / 32767 - max (-1) (min 1 v)\<bar> < 1 / 32767"
  using js_trunc_bounds(2) [of "max (-1) (min 1 v) * 32767"] unfolding sint_to_pcm by linarith

text \<open>
  Claim C7 as stated fails: the sample \<open>1 / 4\<close> is stored as 8191 (the product is 8191.75),
  and \<open>8191 / 32767\<close> is \<open>0.75 / 32767\<close> away from \<open>1 / 4\<close>, more than the half step
  \<open>1 / 65534\<close>.
\<close>

theorem half_step_counterexample:
  "\<not> \<bar>real_of_int (sint (to_pcm (1 / 4))) / 32767 - max (- 1) (min 1 (1 / 4))\<bar> \<le> 1 / 65534"
  by (simp add: to_pcm_quarter)

text \<open>
  Claim C10. Whatever audio is converted (resampled or not), every int16 sample in the
  buffer that \<^verbatim>\<open>convertAudioToPCM\<close> returns lies in \<open>[-32767, 32767]\<close>, so the code
  \<open>-32768\<close> never occurs; and every float obtained by decoding an encoded frame lies in
  \<open>[-32767 / 32768, 32767 / 32768]\<close>.
\<close>

theorem pcm_range:
  "(convertAudioToPCM decodeAudioData startRendering audioBlob = Inr pcm \<longrightarrow>
      list_all (\<lambda>w. - 32767 \<le> sint w \<and> sint w \<le> 32767 \<and> w \<noteq> - 32768) (int16_view pcm)) \<and>
   (round_trip maxArguments decodeAudioData startRendering audioBlob = Inr out \<longrightarrow>
      list_all (\<lambda>v. - 32767 / 32768 \<le> v \<and> v \<le> 32767 / 32768) (channelData out))"
proof (intro conjI impI)
  assume "convertAudioToPCM decodeAudioData startRendering audioBlob = Inr pcm"
  from convertAudioToPCM_Inr [OF this] obtain xs where "pcm = buffer_of (map to_pcm xs)" ..
  then show "list_all (\<lambda>w. - 32767 \<le> sint w \<and> sint w \<le> 32767 \<and> w \<noteq> - 32768) (int16_view pcm)"
    using to_pcm_range to_pcm_not_min by (simp add: int16_view_buffer_of list_all_iff)
next
  assume "round_trip maxArguments decodeAudioData startRendering audioBlob = Inr out"
  from round_trip_Inr [OF this] obtain xs where "channelData out = map (\<lambda>x. from_pcm (to_pcm x)) xs" ..
  then show "list_all (\<lambda>v. - 32767 / 32768 \<le> v \<and> v \<le> 32767 / 32768) (channelData out)"
    using from_pcm_range by (simp add: list_all_iff)
qed

text \<open>
  An instance of C10: the samples 2 and -3, both out of range, are clamped and encoded as
  32767 and -32767, and decoded as \<open>32767 / 32768\<close> and \<open>-32767 / 32768\<close>.
\<close>

theorem pcm_range_witness:
  "convertAudioToPCM Inr id \<lparr>sampleRate = 16000, numberOfChannels = 1, channelData = [2, - 3]\<rparr>
     = Inr (buffer_of [32767, - 32767]) \<and>
   list_all (\<lambda>w. - 32767 \<le> sint w \<and> sint w \<le> 32767 \<and> w \<noteq> - 32768)
     (int16_view (buffer_of [32767, - 32767])) \<and>
   round_trip 65535 Inr id \<lparr>sampleRate = 16000, numberOfChannels = 1, channelData = [2, - 3]\<rparr>
     = Inr \<lparr>sampleRate = 24000, numberOfChannels = 1, channelData = [32767 / 32768, - 32767 / 32768]\<rparr> \<and>
   list_all (\<lambda>v. - 32767 / 32768 \<le> v \<and> v \<le> 32767 / 32768) [32767 / 32768, - 32767 / 32768 :: real]"
proof -
  let ?ab = "\<lparr>sampleRate = 16000, numberOfChannels = 1, channelData = [2, - 3]\<rparr>"
  have a: "to_pcm 2 = 32767" "to_pcm (- 3) = - 32767"
    by (simp_all add: to_pcm_def ToInt16_def js_trunc_def)
  have c: "convertAudioToPCM Inr id ?ab = Inr (buffer_of [32767, - 32767])"
    by (simp add: convertAudioToPCM_def a)
  have r: "round_trip 65535 Inr id ?ab
      = Inr \<lparr>sampleRate = 24000, numberOfChannels = 1, channelData = [32767 / 32768, - 32767 / 32768]\<rparr>"
    using round_trip_mono16k [of Inr ?ab ?ab 65535 id] by (simp add: a from_pcm_def)
  from pcm_range [of Inr id ?ab "buffer_of [32767, - 32767]" 65535
      "\<lparr>sampleRate = 24000, numberOfChannels = 1, channelData = [32767 / 32768, - 32767 / 32768]\<rparr>"]
  show ?thesis using c r by simp
qed

text \<open>
  Claim C1 as stated fails. The 16 kHz mono sample \<open>65535 / 65536\<close> (a float32 value) is
  encoded as \<open>\<lfloor>32766.50002\<rfloor> = 32766\<close> and decoded as \<open>32766 / 32768 = 16383 / 16384\<close>,
  which is 1.5 quantization steps away from it: encoding scales by 32767 and truncates,
  decoding divides by 32768.
\<close>

theorem round_trip_one_step_counterexample:
  "round_trip 65535 Inr id \<lparr>sampleRate = 16000, numberOfChannels = 1, channelData = [65535 / 65536]\<rparr>
     = Inr \<lparr>sampleRate = 24000, numberOfChannels = 1, channelData = [16383 / 16384]\<rparr> \<and>
   \<not> \<bar>16383 / 16384 - 65535 / 65536\<bar> \<le> (1 / 32768 :: real)"
proof -
  let ?ab = "\<lparr>sampleRate = 16000, numberOfChannels = 1, channelData = [65535 / 65536]\<rparr>"
  have fp: "from_pcm (to_pcm (65535 / 65536)) = 16383 / 16384"
    by (simp add: from_pcm_def to_pcm_near_one)
  show ?thesis using round_trip_mono16k [of Inr ?ab ?ab 65535 id] by (simp add: fp)
qed

text \<open>
  Claim C1, as it holds on the code. For 16 kHz mono audio with at least one sample, all
  samples in \<open>[-1, 1]\<close>, and no more PCM bytes (two per sample) than the engine accepts as
  arguments of one call, a frame is encoded, decoding it succeeds, returns as many samples
  and reproduces each of them to within less than two int16 quantization steps:
  \<open>\<bar>decoded[i] - x[i]\<bar> < 2 / 32768\<close>. Nothing is said here of a longer recording, for
  which \<open>round_trip_beyond\<close> shows that no frame is produced.
\<close>

theorem round_trip_two_steps:
  assumes "decodeAudioData audioBlob = Inr ab" "sampleRate ab = 16000" "numberOfChannels ab = 1"
    and "channelData ab \<noteq> []" "list_all (\<lambda>x. - 1 \<le> x \<and> x \<le> 1) (channelData ab)"
    and "2 * length (channelData ab) \<le> maxArguments"
  shows "\<exists>out. round_trip maxArguments decodeAudioData startRendering audioBlob = Inr out \<and>
           length (channelData out) = length (channelData ab) \<and>
           (\<forall>i < length (channelData ab). \<bar>channelData out ! i - channelData ab ! i\<bar> < 2 / 32768)"
proof -
  let ?out = "\<lparr>sampleRate = 24000, numberOfChannels = 1,
               channelData = map (\<lambda>x. from_pcm (to_pcm x)) (channelData ab)\<rparr>"
  have "round_trip maxArguments decodeAudioData startRendering audioBlob = Inr ?out"
    using assms(4)
      round_trip_mono16k [of decodeAudioData audioBlob ab maxArguments startRendering,
        OF assms(1-3) assms(6)]
    by simp
  moreover have "\<bar>channelData ?out ! i - channelData ab ! i\<bar> < 2 / 32768"
    if "i < length (channelData ab)" for i
  proof -
    from that assms(5) have "- 1 \<le> channelData ab ! i" "channelData ab ! i \<le> 1"
      by (simp_all add: list_all_length)
    then show ?thesis using that roundtrip_sample [of "channelData ab ! i"] by simp
  qed
  ultimately show ?thesis by auto
qed

text \<open>
  An instance of the round trip: the one-sample buffer \<open>[65535 / 65536]\<close>, on an engine
  that accepts 65535 arguments.
\<close>

theorem round_trip_two_steps_witness:
  "\<exists>out. round_trip 65535 Inr id \<lparr>sampleRate = 16000, numberOfChannels = 1, channelData = [65535 / 65536]\<rparr> = Inr out \<and>
     length (channelData out) = 1 \<and>
     (\<forall>i < 1. \<bar>channelData out ! i - [65535 / 65536] ! i\<bar> < 2 / 32768)"
  using round_trip_two_steps [of Inr "\<lparr>sampleRate = 16000, numberOfChannels = 1, channelData = [65535 / 65536]\<rparr>"
      "\<lparr>sampleRate = 16000, numberOfChannels = 1, channelData = [65535 / 65536]\<rparr>" 65535 id]
  by simp

section \<open>Sending while the transport is not open\<close>

text \<open>
  Claim C3. When the transport is absent or not open, \<^verbatim>\<open>sendTextMessage\<close> and
  \<^verbatim>\<open>sendAudioMessage\<close> fail with the not-connected error, for every text and every audio
  blob, and leave the session as it was: nothing is sent and no field changes.
\<close>

theorem send_not_open:
  assumes "ws s \<noteq> Some OPEN"
  shows "sendTextMessage s text = (Inl NotConnected, s) \<and>
         sendAudioMessage maxArguments decodeAudioData startRendering s audioBlob =
           (Inl NotConnected, s)"
  using assms by (simp add: sendTextMessage_def sendAudioMessage_def)

text \<open>An instance of C3: sending on a service that was never connected.\<close>

theorem send_not_open_witness:
  "ws fresh \<noteq> Some OPEN \<and>
   sendTextMessage fresh ''hello'' = (Inl NotConnected, fresh) \<and>
   sendAudioMessage 65535 Inr id fresh \<lparr>sampleRate = 16000, numberOfChannels = 1, channelData = [0]\<rparr>
     = (Inl NotConnected, fresh)"
proof -
  have h: "ws fresh \<noteq> Some OPEN" by (simp add: fresh_def)
  from send_not_open [OF h] h show ?thesis by simp
qed

section \<open>Stopping playback and disconnecting\<close>

lemma stopAudioPlayback_clears:
  "audioQueue (stopAudioPlayback s) = [] \<and> \<not> isPlaying (stopAudioPlayback s) \<and>
   currentSource (stopAudioPlayback s) = None \<and>
   pendingEnded (stopAudioPlayback s) = pendingEnded s \<and>
   events (stopAudioPlayback s) =
     events s @ (if currentSource s \<noteq> None then [SourceStop] else []) @ [OnAudioPlaybackComplete]"
  by (simp add: stopAudioPlayback_def emit_def Let_def)

lemma stop_when_idle_completes_once:
  assumes "pendingEnded s = 0"
  shows "source_ended (stopAudioPlayback s) = None \<and>
         count_list (drop (length (events s)) (events (stopAudioPlayback s))) OnAudioPlaybackComplete = 1"
  using assms stopAudioPlayback_clears [of s] by (simp add: source_ended_def)

text \<open>
  Claim C2 does not hold on the code when a source is in mid-playback. \<^verbatim>\<open>stopAudioPlayback\<close>
  invokes the playback-complete callback itself, and the source it stopped still carries
  the \<^verbatim>\<open>onended\<close> handler: when the \<^verbatim>\<open>ended\<close> event of the stopped source is dispatched,
  \<^verbatim>\<open>playNextAudio\<close> finds the queue empty and invokes the callback a second time.
\<close>

theorem stop_mid_playback_completes_twice:
  assumes "0 < pendingEnded s"
  shows "\<exists>s'. source_ended (stopAudioPlayback s) = Some s' \<and>
           count_list (drop (length (events s)) (events s')) OnAudioPlaybackComplete = 2"
  using assms stopAudioPlayback_clears [of s]
  by (simp add: source_ended_def playNextAudio_def emit_def)

text \<open>
  An instance: a fresh service handles one audio fragment (one sample), which starts
  playing; playback is stopped; the stopped source's \<^verbatim>\<open>ended\<close> event arrives.
\<close>

theorem stop_mid_playback_completes_twice_witness:
  "0 < pendingEnded (handleAudioResponse fresh ''AAA='') \<and>
   (\<exists>s'. source_ended (stopAudioPlayback (handleAudioResponse fresh ''AAA='')) = Some s' \<and>
      count_list (drop (length (events (handleAudioResponse fresh ''AAA=''))) (events s'))
        OnAudioPlaybackComplete = 2)"
proof -
  have "decodeInbound True ''AAA='' =
      Inr \<lparr>sampleRate = 24000, numberOfChannels = 1, channelData = [0]\<rparr>"
    by (rule decode_AAA)
  then have h: "0 < pendingEnded (handleAudioResponse fresh ''AAA='')"
    by (simp add: handleAudioResponse_def ensure_context_def fresh_def enqueue_def
        playNextAudio_def emit_def Let_def)
  from stop_mid_playback_completes_twice [OF h] h show ?thesis by simp
qed

text \<open>
  Claim C8. From every state, a second \<^verbatim>\<open>disconnect()\<close> right after the first leaves every
  field of the service as the first call left it (it only invokes the playback-complete
  callback once more), and after it the transport handle and the audio context are
  cleared, the queue is empty, nothing plays and the service is not connected. Neither call
  can throw: \<open>disconnect\<close> returns a session for every session.
\<close>

theorem disconnect_twice:
  "disconnect (disconnect s) = (disconnect s)\<lparr>events := events (disconnect s) @ [OnAudioPlaybackComplete]\<rparr> \<and>
   ws (disconnect (disconnect s)) = None \<and> \<not> isConnected (disconnect (disconnect s)) \<and>
   audioContext (disconnect (disconnect s)) = None \<and> audioQueue (disconnect (disconnect s)) = [] \<and>
   \<not> isPlaying (disconnect (disconnect s)) \<and> currentSource (disconnect (disconnect s)) = None"
  by (simp add: disconnect_def stopAudioPlayback_def emit_def Let_def)

section \<open>Citation extraction on typed metadata\<close>

lemma js_or_simps:
  "js_or (Num n) (Num 0) = Num n"
  "js_or (Str x) (Str []) = Str x"
  "js_or Undefined b = b"
  "js_or (Str x) (Str ''Web Source'') = Str (if x = [] then ''Web Source'' else x)"
  "js_or (Arr xs) b = Arr xs"
  by (auto simp: js_or_def)

lemma lenient_citations_Cons:
  "lenient_citations (a # as) = lenient_citations [a] @ lenient_citations as"
proof -
  obtain sg w where "a = Attribution sg w" by (cases a)
  then show ?thesis by (cases sg; cases w) simp_all
qed

lemma attribution_citations_js:
  "attribution_citations (js_attribution a) = Inr (lenient_citations [a])"
proof -
  obtain sg w where a: "a = Attribution sg w" by (cases a)
  show ?thesis
  proof (cases sg)
    case None
    then show ?thesis by (cases w) (simp_all add: a attribution_citations_def)
  next
    case sg: (Some seg)
    show ?thesis
    proof (cases w)
      case None
      then show ?thesis by (simp add: a sg attribution_citations_def)
    next
      case w: (Some web)
      obtain si ei where seg: "seg = Segment si ei" by (cases seg)
      obtain u t where web: "web = Web u t" by (cases web)
      show ?thesis
        by (cases si; cases ei; cases u; cases t)
           (simp_all add: a sg w seg web attribution_citations_def js_or_simps)
    qed
  qed
qed

lemma forEach_attribution_js:
  "forEach_attribution (map js_attribution as) = Inr (lenient_citations as)"
proof (induction as)
  case Nil
  show ?case by simp
next
  case (Cons a as)
  then show ?case
    by (simp add: attribution_citations_js lenient_citations_Cons [of a as])
qed

lemma extractCitations_js:
  "extractCitations (js_grounding gm) = Inr (extractCitations_lenient gm)"
proof -
  obtain attrs where gm: "gm = GroundingMetadata attrs" by (cases gm)
  show ?thesis
    by (cases attrs) (simp_all add: gm extractCitations_def forEach_attribution_js)
qed

lemma lenient_citation_eq_spec:
  "t \<noteq> Some [] \<Longrightarrow> lenient_citation sg (Web u t) = spec_citation sg (Web u t)"
  by (cases sg; cases t) simp_all

text \<open>
  Claim C5, as it holds on the code. On grounding metadata of the documented shape,
  \<^verbatim>\<open>extractCitations\<close> returns one citation per attribution entry that has both a segment
  and a web source, in input order and without deduplication; \<open>startIndex\<close> and
  \<open>endIndex\<close> default to 0 and \<open>uri\<close> to the empty string when absent, and \<open>title\<close>
  defaults to "Web Source" when it is absent or empty. The specification's two-entry
  example yields its two citations.
\<close>

theorem extractCitations_lenient_eq:
  "extractCitations (js_grounding gm) = Inr (extractCitations_lenient gm) \<and>
   extractCitations (js_grounding example_metadata) =
     Inr [\<lparr>startIndex = Num 5, endIndex = Num 10, uri = Str ''https://x'', title = Str ''X''\<rparr>,
          \<lparr>startIndex = Num 0, endIndex = Num 0, uri = Str [], title = Str ''Web Source''\<rparr>]"
proof
  show "extractCitations (js_grounding gm) = Inr (extractCitations_lenient gm)"
    by (rule extractCitations_js)
  show "extractCitations (js_grounding example_metadata) =
     Inr [\<lparr>startIndex = Num 5, endIndex = Num 10, uri = Str ''https://x'', title = Str ''X''\<rparr>,
          \<lparr>startIndex = Num 0, endIndex = Num 0, uri = Str [], title = Str ''Web Source''\<rparr>]"
    using extractCitations_js [of example_metadata] by (simp add: example_metadata_def)
qed

text \<open>
  Claim C5 as stated fails on an entry whose web source has an empty title: the code
  writes \<^verbatim>\<open>attr.web.title || 'Web Source'\<close>, which replaces the empty title that is
  present, where the claim defaults the title only when it is absent.
\<close>

theorem empty_title_counterexample:
  "extractCitations (js_grounding (GroundingMetadata (Some
      [Attribution (Some (Segment None None)) (Some (Web None (Some [])))])))
   \<noteq> Inr (extractCitations_spec (GroundingMetadata (Some
      [Attribution (Some (Segment None None)) (Some (Web None (Some [])))])))"
  using extractCitations_js [of "GroundingMetadata (Some
      [Attribution (Some (Segment None None)) (Some (Web None (Some [])))])"]
  by simp

section \<open>Inbound messages\<close>

text \<open>
  Claim C6. A payload that is not valid JSON, or whose parsed value has neither the key
  \<^verbatim>\<open>serverContent\<close> nor the key \<^verbatim>\<open>setupComplete\<close>, leaves the session as it was: no
  callback is invoked, the connection state and the playback queue are unchanged. The
  handler cannot throw: \<open>handleMessage\<close> returns a session for every payload.
\<close>

theorem unrecognised_payload_ignored:
  assumes "JSON_parse data = None \<or>
           (\<exists>m. JSON_parse data = Some m \<and> \<not> has_key m ''serverContent'' \<and> \<not> has_key m ''setupComplete'')"
  shows "handleMessage JSON_parse Number_toString s data = s"
proof -
  have "handleMessage JSON_parse Number_toString s data = s"
    if "JSON_parse data = Some m" "\<not> has_key m ''serverContent''" for m
  proof (cases m)
    case (Obj kvs)
    with that(2) have "map_of kvs ''serverContent'' = None"
      by (simp add: map_of_eq_None_iff)
    with that(1) Obj show ?thesis by (simp add: handleMessage_def)
  qed (use that(1) in \<open>simp_all add: handleMessage_def\<close>)
  with assms show ?thesis by (auto simp: handleMessage_def)
qed

text \<open>
  Two instances of C6: the payload of the specification's example, which parses to an
  object with the single key \<^verbatim>\<open>unexpected\<close>, and a payload that does not parse.
\<close>

theorem unrecognised_payload_ignored_witness:
  "handleMessage (map_of [(''{unexpected:true}'', Obj [(''unexpected'', Bool True)])])
     unused_rendering connected ''{unexpected:true}'' = connected \<and>
   handleMessage (map_of [(''{unexpected:true}'', Obj [(''unexpected'', Bool True)])])
     unused_rendering connected ''not json'' = connected"
proof -
  let ?parse = "map_of [(''{unexpected:true}'', Obj [(''unexpected'', Bool True)])]"
  have 1: "?parse ''{unexpected:true}'' = None \<or>
      (\<exists>m. ?parse ''{unexpected:true}'' = Some m \<and> \<not> has_key m ''serverContent'' \<and> \<not> has_key m ''setupComplete'')"
    by simp
  have 2: "?parse ''not json'' = None \<or>
      (\<exists>m. ?parse ''not json'' = Some m \<and> \<not> has_key m ''serverContent'' \<and> \<not> has_key m ''setupComplete'')"
    by simp
  from unrecognised_payload_ignored [of ?parse "''{unexpected:true}''" unused_rendering connected, OF 1]
    unrecognised_payload_ignored [of ?parse "''not json''" unused_rendering connected, OF 2]
  show ?thesis by simp
qed

lemma ensure_context_simps:
  "audioContext (ensure_context s) \<noteq> None" "\<exists>y. audioContext (ensure_context s) = Some y"
  "audioQueue (ensure_context s) = audioQueue s"
  "isPlaying (ensure_context s) = isPlaying s" "isConnected (ensure_context s) = isConnected s"
  "events (ensure_context s) = events s" "ws (ensure_context s) = ws s"
  "playback_order (ensure_context s) = playback_order s"
  by (simp_all add: ensure_context_def playback_order_def)

lemma handle_part_inline:
  "handle_part Number_toString s (Obj [(''inlineData'', Obj [(''mimeType'', Str m), (''data'', Str d)])]) =
     (None, if m = ''audio/pcm'' then handleAudioResponse s d else s)"
  by (simp add: handle_part_def)

lemma handle_part_text:
  "handle_part Number_toString s (Obj [(''text'', Str t)]) =
     (None, if t = [] then s else emit (OnTextResponse (Str t)) s)"
  by (simp add: handle_part_def)

text \<open>
  Claim C9. When the base64 payload of an audio part decodes to an odd number of bytes,
  decoding fails with the RangeError of the \<^verbatim>\<open>Int16Array\<close> constructor; the error is
  caught in \<^verbatim>\<open>handleAudioResponse\<close>, which only keeps the audio context it may have
  created: no buffer is enqueued, the queue, the playing flag, the connection state and the
  callbacks invoked are unchanged, and the loop over the parts goes on with the next part.
\<close>

theorem odd_payload_dropped:
  assumes "atob audioData = Inr binaryData" "odd (length binaryData)"
  shows "decodeInbound True audioData = Inl RangeError \<and>
         handleAudioResponse s audioData = ensure_context s \<and>
         audioQueue (handleAudioResponse s audioData) = audioQueue s \<and>
         isPlaying (handleAudioResponse s audioData) = isPlaying s \<and>
         isConnected (handleAudioResponse s audioData) = isConnected s \<and>
         events (handleAudioResponse s audioData) = events s \<and>
         for_parts Number_toString s (js_part (InlineDataPart ''audio/pcm'' audioData) # rest) =
           for_parts Number_toString (ensure_context s) rest"
proof -
  have d: "decodeInbound True audioData = Inl RangeError"
    using assms by (simp add: decodeInbound_def pcmToAudioBuffer_def Int16Array_def charCodes_def)
  then have h: "handleAudioResponse s audioData = ensure_context s"
    by (simp add: handleAudioResponse_def ensure_context_simps Let_def)
  show ?thesis
    by (simp add: d h ensure_context_simps handle_part_inline)
qed

text \<open>An instance of C9: the payload \<^verbatim>\<open>QQ==\<close> decodes to the single byte 65.\<close>

theorem odd_payload_dropped_witness:
  "atob ''QQ=='' = Inr ''A'' \<and> odd (length ''A'') \<and>
   decodeInbound True ''QQ=='' = Inl RangeError \<and>
   handleAudioResponse connected ''QQ=='' = ensure_context connected \<and>
   audioQueue (handleAudioResponse connected ''QQ=='') = audioQueue connected \<and>
   isPlaying (handleAudioResponse connected ''QQ=='') = isPlaying connected \<and>
   isConnected (handleAudioResponse connected ''QQ=='') = isConnected connected \<and>
   events (handleAudioResponse connected ''QQ=='') = events connected \<and>
   for_parts unused_rendering connected
       [js_part (InlineDataPart ''audio/pcm'' ''QQ==''), js_part (InlineDataPart ''audio/pcm'' ''AAA='')] =
     for_parts unused_rendering (ensure_context connected) [js_part (InlineDataPart ''audio/pcm'' ''AAA='')]"
proof -
  have o: "odd (length ''A'')" by simp
  show ?thesis
    by (rule conjI [OF atob_QQ conjI [OF o odd_payload_dropped [OF atob_QQ o]]])
qed

lemma started_append: "started (xs @ ys) = started xs @ started ys"
  by (induction xs rule: started.induct) simp_all

lemma decoded_append: "decoded (xs @ ys) = decoded xs @ decoded ys"
  by (induction xs) simp_all

lemma playback_events_quiet:
  "list_all playback_event evs \<Longrightarrow> count_list evs OnTurnComplete = 0 \<and> \<not> list_ex is_citations evs"
  by (induction evs rule: started.induct) simp_all

lemma enqueue_order:
  assumes "audioContext s \<noteq> None"
  shows "playback_order (enqueue b s) = playback_order s @ [b] \<and>
         (\<exists>evs. events (enqueue b s) = events s @ evs \<and> list_all playback_event evs)"
proof (cases "isPlaying s")
  case True
  then show ?thesis by (simp add: enqueue_def playback_order_def)
next
  case False
  have "hd (audioQueue s @ [b]) # tl (audioQueue s @ [b]) = audioQueue s @ [b]"
    by (rule hd_Cons_tl) simp
  then have "[hd (audioQueue s @ [b])] @ tl (audioQueue s @ [b]) = audioQueue s @ [b]"
    by simp
  with False assms show ?thesis
    by (simp add: enqueue_def playback_order_def playNextAudio_def emit_def started_append Let_def
        del: hd_append2 tl_append2 hd_append tl_append)
qed

lemma handleAudioResponse_order:
  "playback_order (handleAudioResponse s d) = playback_order s @ decoded [d] \<and>
   (\<exists>evs. events (handleAudioResponse s d) = events s @ evs \<and> list_all playback_event evs)"
proof (cases "decodeInbound True d")
  case (Inl e)
  then show ?thesis by (simp add: handleAudioResponse_def ensure_context_simps)
next
  case (Inr b)
  with enqueue_order [of "ensure_context s" b] show ?thesis
    by (simp add: handleAudioResponse_def ensure_context_simps)
qed

lemma handle_part_js:
  "\<exists>s' evs. handle_part Number_toString s (js_part p) = (None, s') \<and>
     playback_order s' = playback_order s @ decoded (pcm_payloads [p]) \<and>
     events s' = events s @ evs \<and> list_all playback_event evs"
proof (cases p)
  case (TextPart t)
  then show ?thesis
    by (simp add: handle_part_text emit_def playback_order_def started_append)
next
  case (InlineDataPart m d)
  with handleAudioResponse_order [of s d] show ?thesis
    by (auto simp: handle_part_inline)
qed

lemma for_parts_js:
  "\<exists>s' evs. for_parts Number_toString s (map js_part ps) = (None, s') \<and>
     playback_order s' = playback_order s @ decoded (pcm_payloads ps) \<and>
     events s' = events s @ evs \<and> list_all playback_event evs"
proof (induction ps arbitrary: s)
  case Nil
  show ?case by simp
next
  case (Cons p ps)
  from handle_part_js [of Number_toString s p] obtain s1 evs1 where
    1: "handle_part Number_toString s (js_part p) = (None, s1)"
      "playback_order s1 = playback_order s @ decoded (pcm_payloads [p])"
      "events s1 = events s @ evs1" "list_all playback_event evs1"
    by blast
  from Cons.IH [of s1] obtain s2 evs2 where
    2: "for_parts Number_toString s1 (map js_part ps) = (None, s2)"
      "playback_order s2 = playback_order s1 @ decoded (pcm_payloads ps)"
      "events s2 = events s1 @ evs2" "list_all playback_event evs2"
    by blast
  have "pcm_payloads (p # ps) = pcm_payloads [p] @ pcm_payloads ps"
    by (cases p) simp_all
  then have "playback_order s2 = playback_order s @ decoded (pcm_payloads (p # ps))"
    by (simp add: 1 2 decoded_append)
  moreover have "events s2 = events s @ (evs1 @ evs2)" "list_all playback_event (evs1 @ evs2)"
    by (simp_all add: 1 2)
  moreover have "for_parts Number_toString s (map js_part (p # ps)) = (None, s2)"
    by (simp add: 1 2)
  ultimately show ?case by blast
qed

lemma handleMessage_js:
  assumes "JSON_parse data = Some (js_message (js_server_content parts None True))"
  shows "playback_order (handleMessage JSON_parse Number_toString s data) =
           playback_order s @ decoded (pcm_payloads parts) \<and>
         (\<exists>evs. events (handleMessage JSON_parse Number_toString s data) = events s @ evs \<and>
            count_list evs OnTurnComplete = 1 \<and> \<not> list_ex is_citations evs)"
proof -
  from for_parts_js [of Number_toString s parts] obtain s' evs where
    1: "for_parts Number_toString s (map js_part parts) = (None, s')"
      "playback_order s' = playback_order s @ decoded (pcm_payloads parts)"
      "events s' = events s @ evs" "list_all playback_event evs"
    by blast
  have "handleServerContent Number_toString s (js_server_content parts None True) =
          (None, emit OnTurnComplete s')"
    by (simp add: handleServerContent_def js_server_content_def model_turn_def iterate_def
        js_or_simps 1)
  then have h: "handleMessage JSON_parse Number_toString s data = emit OnTurnComplete s'"
    using assms by (simp add: handleMessage_def js_message_def js_server_content_def)
  have "events (emit OnTurnComplete s') = events s @ (evs @ [OnTurnComplete])"
    by (simp add: emit_def 1)
  moreover have "count_list (evs @ [OnTurnComplete]) OnTurnComplete = 1"
    "\<not> list_ex is_citations (evs @ [OnTurnComplete])"
    using playback_events_quiet [OF 1(4)] by simp_all
  moreover have "playback_order (emit OnTurnComplete s') = playback_order s'"
    by (simp add: emit_def playback_order_def started_append)
  then have "playback_order (emit OnTurnComplete s') = playback_order s @ decoded (pcm_payloads parts)"
    by (simp only: 1(2))
  ultimately show ?thesis unfolding h by blast
qed

text \<open>
  Claim C4, as it holds on the code. A \<^verbatim>\<open>serverContent\<close> message of the documented shape
  with exactly two \<^verbatim>\<open>audio/pcm\<close> inline-data parts whose payloads both decode, with
  \<^verbatim>\<open>turnComplete: true\<close> and without grounding metadata, hands exactly the two decoded
  buffers to the playback queue, in part order; the turn-complete callback is invoked
  exactly once and the citations callback is not invoked.
\<close>

theorem two_audio_parts:
  assumes "JSON_parse data = Some (js_message (js_server_content parts None True))"
    and "pcm_payloads parts = [d1, d2]"
    and "decodeInbound True d1 = Inr b1" "decodeInbound True d2 = Inr b2"
  shows "playback_order (handleMessage JSON_parse Number_toString s data) = playback_order s @ [b1, b2] \<and>
         (\<exists>evs. events (handleMessage JSON_parse Number_toString s data) = events s @ evs \<and>
            count_list evs OnTurnComplete = 1 \<and> \<not> list_ex is_citations evs)"
  using handleMessage_js [of JSON_parse data parts Number_toString s, OF assms(1)] assms(2-4) by simp

text \<open>
  An instance of C4: two one-sample audio parts with a text part between them, handled by
  a fresh service.
\<close>

theorem two_audio_parts_witness:
  "playback_order (handleMessage Some unused_rendering fresh
      (js_message (js_server_content
         [InlineDataPart ''audio/pcm'' ''AAA='', TextPart ''hi'', InlineDataPart ''audio/pcm'' ''AQA='']
         None True))) =
     playback_order fresh @
       [\<lparr>sampleRate = 24000, numberOfChannels = 1, channelData = [0]\<rparr>,
        \<lparr>sampleRate = 24000, numberOfChannels = 1, channelData = [1 / 32768]\<rparr>] \<and>
   (\<exists>evs. events (handleMessage Some unused_rendering fresh
      (js_message (js_server_content
         [InlineDataPart ''audio/pcm'' ''AAA='', TextPart ''hi'', InlineDataPart ''audio/pcm'' ''AQA='']
         None True))) = events fresh @ evs \<and>
      count_list evs OnTurnComplete = 1 \<and> \<not> list_ex is_citations evs)"
proof -
  have p: "pcm_payloads [InlineDataPart ''audio/pcm'' ''AAA='', TextPart ''hi'',
      InlineDataPart ''audio/pcm'' ''AQA=''] = [''AAA='', ''AQA='']"
    by simp
  show ?thesis
    by (rule two_audio_parts [where JSON_parse = Some and Number_toString = unused_rendering
          and s = fresh, OF refl p decode_AAA decode_AQA])
qed

text \<open>
  Claim C4 as stated fails when a payload does not decode: a message with two
  \<^verbatim>\<open>audio/pcm\<close> parts whose payloads are \<^verbatim>\<open>QQ==\<close> (one byte each) enqueues no buffer.
\<close>

theorem undecodable_audio_parts_counterexample:
  "playback_order (handleMessage Some unused_rendering fresh
      (js_message (js_server_content
         [InlineDataPart ''audio/pcm'' ''QQ=='', InlineDataPart ''audio/pcm'' ''QQ==''] None True))) = []"
proof -
  have "playback_order (handleMessage Some unused_rendering fresh
      (js_message (js_server_content
         [InlineDataPart ''audio/pcm'' ''QQ=='', InlineDataPart ''audio/pcm'' ''QQ==''] None True))) =
    playback_order fresh @ decoded (pcm_payloads
         [InlineDataPart ''audio/pcm'' ''QQ=='', InlineDataPart ''audio/pcm'' ''QQ==''])"
    using handleMessage_js [where JSON_parse = Some and Number_toString = unused_rendering
          and s = fresh, OF refl] by blast
  also have "\<dots> = []"
    by (simp add: decode_QQ playback_order_def fresh_def)
  finally show ?thesis .
qed

end
